theory Spec2Isabelle
  imports
    Complex_Main
    "HOL-Library.Char_ord"
    "HOL-Library.List_Lexorder"
    "HOL-Library.Product_Lexorder"
begin

section \<open>Values and frames\<close>

text \<open>
  A float64 cell of a DataFrame column is a finite number or null (pandas writes null as
  NaN); finite floats are idealised as exact reals, so rounding, overflow and signed zeros
  are outside the model. The result of a raw Series division can also be infinite.
\<close>

type_synonym cell = "real option"

datatype fval = Fin real | PInf | NInf | NaN

text \<open>The non-null values of a column, which is what pandas sums and averages over.\<close>

fun present :: "cell list \<Rightarrow> real list" where
  "present [] = []"
| "present (None # cs) = present cs"
| "present (Some x # cs) = x # present cs"

text \<open>\<^verbatim>\<open>Series.sum()\<close> and the groupby \<^verbatim>\<open>"sum"\<close>: nulls are skipped, an all-null sum is 0.\<close>

definition nansum :: "cell list \<Rightarrow> real" where
  "nansum cs = sum_list (present cs)"

text \<open>\<^verbatim>\<open>Series.mean()\<close> and the groupby \<^verbatim>\<open>"mean"\<close>: nulls are skipped, an all-null mean is null.\<close>

definition nanmean :: "cell list \<Rightarrow> cell" where
  "nanmean cs =
     (if present cs = [] then None
      else Some (sum_list (present cs) / real (length (present cs))))"

text \<open>
  Series division \<^verbatim>\<open>a / b\<close>, element by element: a null operand gives NaN, a zero divisor
  gives an infinity of the dividend's sign, and 0/0 gives NaN.
\<close>

fun series_div :: "cell \<Rightarrow> cell \<Rightarrow> fval" where
  "series_div (Some a) (Some b) =
     (if b \<noteq> 0 then Fin (a / b)
      else if a > 0 then PInf
      else if a < 0 then NInf
      else NaN)"
| "series_div _ _ = NaN"

text \<open>\<^verbatim>\<open>Series.replace([inf, -inf], nan)\<close> on one element.\<close>

fun replace_inf :: "fval \<Rightarrow> fval" where
  "replace_inf PInf = NaN"
| "replace_inf NInf = NaN"
| "replace_inf v = v"

text \<open>
  A DataFrame is its list of column names and its rows. A field of a row is meaningful
  only when its column is listed in \<open>columns\<close>; the code checks the list before it reads.
\<close>

record 'r frame =
  columns :: "string list"
  rows :: "'r list"

text \<open>The unified dataset, one row per (date, campaign_id, location).\<close>

record unified =
  date :: int
  campaign_id :: string
  location :: string
  impressions :: real
  clicks :: cell
  conversions :: cell
  spend :: cell
  temperature_c :: cell
  rainfall_mm :: cell
  ctr :: fval
  cpc :: fval
  conversion_rate :: fval
  cpa :: fval

section \<open>Anomaly detection (report generators)\<close>

text \<open>
  Both report generators carry their own \<^verbatim>\<open>_detect_anomalies\<close>. Each builds one sentence
  per finding; the values interpolated into the sentence are kept in a record, and the
  sentence is rendered from it. \<open>rainfall\<close> is \<open>None\<close> when the sentence has no rainfall
  clause, \<open>Some None\<close> when the clause holds a NaN mean, \<open>Some (Some x)\<close> otherwise.
\<close>

record finding =
  f_location :: string
  f_date :: int
  drop_pct :: real
  impressions_current :: real
  impressions_previous :: real
  rainfall :: "cell option"

text \<open>
  The library's formatting: \<^verbatim>\<open>{x:.1f}\<close>, \<^verbatim>\<open>{int(x):,}\<close> and \<^verbatim>\<open>str\<close> of a timestamp. They are
  not code of the repository and are taken as parameters.
\<close>

record formatters =
  fmt_1f :: "real \<Rightarrow> string"
  fmt_int :: "real \<Rightarrow> string"
  fmt_date :: "int \<Rightarrow> string"

text \<open>
  \<^verbatim>\<open>merged_df.groupby(["date", "location"], as_index=False)["impressions"].sum()
     .sort_values(["location", "date"])\<close>:
  one row per distinct (date, location), keys ascending, then ordered by location and date.
\<close>

definition daily_impressions :: "unified list \<Rightarrow> (int \<times> string \<times> real) list" where
  "daily_impressions rs =
     sort_key (\<lambda>(d, l, s). (l, d))
       (map (\<lambda>(d, l). (d, l, sum_list (map impressions
                 (filter (\<lambda>r. date r = d \<and> location r = l) rs))))
            (sort (remdups (map (\<lambda>r. (date r, location r)) rs))))"

text \<open>\<^verbatim>\<open>daily.groupby("location")\<close>: the locations ascending, each with its rows in order.\<close>

definition location_groups ::
  "(int \<times> string \<times> real) list \<Rightarrow> (string \<times> (int \<times> string \<times> real) list) list" where
  "location_groups daily =
     map (\<lambda>loc. (loc, filter (\<lambda>(d, l, s). l = loc) daily))
         (sort (remdups (map (\<lambda>(d, l, s). l) daily)))"

text \<open>
  \<^verbatim>\<open>merged_df[(merged_df["date"] == d) & (merged_df["location"] == loc)]["rainfall_mm"]\<close>
\<close>

definition rain_vals :: "unified frame \<Rightarrow> int \<Rightarrow> string \<Rightarrow> cell list" where
  "rain_vals merged_df d loc =
     map rainfall_mm (filter (\<lambda>r. date r = d \<and> location r = loc) (rows merged_df))"

subsection \<open>pdf\_report.py\<close>

text \<open>
  The loop over \<^verbatim>\<open>range(1, len(grp))\<close>. The second component is a trace of the divisors
  with which \<^verbatim>\<open>(curr_impr - prev_impr) / prev_impr\<close> is evaluated.
\<close>

fun pdf_scan_group ::
  "unified frame \<Rightarrow> bool \<Rightarrow> real \<Rightarrow> string \<Rightarrow> (int \<times> string \<times> real) list
     \<Rightarrow> finding list \<times> real list" where
  "pdf_scan_group merged_df has_rain drop_threshold loc
       ((pd, pl, prev_impr) # (cd, cl, curr_impr) # rest) =
     (if prev_impr \<le> 0
      then pdf_scan_group merged_df has_rain drop_threshold loc ((cd, cl, curr_impr) # rest)
      else
        (let change = (curr_impr - prev_impr) / prev_impr;
             later = pdf_scan_group merged_df has_rain drop_threshold loc
                       ((cd, cl, curr_impr) # rest)
         in ((if change \<le> - drop_threshold
              then [\<lparr>f_location = loc, f_date = cd, drop_pct = - change * 100,
                     impressions_current = curr_impr, impressions_previous = prev_impr,
                     rainfall =
                       (if has_rain
                        then (if rain_vals merged_df cd loc \<noteq> []
                              then Some (nanmean (rain_vals merged_df cd loc)) else None)
                        else None)\<rparr>]
              else []) @ fst later,
             prev_impr # snd later)))"
| "pdf_scan_group merged_df has_rain drop_threshold loc _ = ([], [])"

definition pdf_scan :: "unified frame \<Rightarrow> real \<Rightarrow> finding list \<times> real list" where
  "pdf_scan merged_df drop_threshold =
     (if ''impressions'' \<notin> set (columns merged_df) \<or> ''location'' \<notin> set (columns merged_df)
         \<or> ''date'' \<notin> set (columns merged_df)
      then ([], [])
      else
        (let daily = daily_impressions (rows merged_df);
             has_rain = (''rainfall_mm'' \<in> set (columns merged_df));
             per_location =
               map (\<lambda>(loc, grp).
                      pdf_scan_group merged_df has_rain drop_threshold loc (sort_key fst grp))
                   (location_groups daily)
         in (concat (map fst per_location), concat (map snd per_location))))"

definition pdf_message :: "formatters \<Rightarrow> finding \<Rightarrow> string" where
  "pdf_message F f =
     ''Traffic dropped '' @ fmt_1f F (drop_pct f) @ ''% in '' @ f_location f @ '' on ''
       @ fmt_date F (f_date f) @ '' (impressions '' @ fmt_int F (impressions_current f)
       @ '' vs '' @ fmt_int F (impressions_previous f) @ '' previous day)''
       @ (case rainfall f of
            None \<Rightarrow> []
          | Some None \<Rightarrow> ''. Reported rainfall: nanmm.''
          | Some (Some rain) \<Rightarrow> ''. Reported rainfall: '' @ fmt_1f F rain @ ''mm.'')
       @ ''.''"

definition pdf_detect_anomalies :: "formatters \<Rightarrow> unified frame \<Rightarrow> real \<Rightarrow> string list" where
  "pdf_detect_anomalies F merged_df drop_threshold =
     map (pdf_message F) (fst (pdf_scan merged_df drop_threshold))"

subsection \<open>ppt\_report.py\<close>

fun ppt_scan_group ::
  "unified frame \<Rightarrow> bool \<Rightarrow> real \<Rightarrow> string \<Rightarrow> (int \<times> string \<times> real) list
     \<Rightarrow> finding list \<times> real list" where
  "ppt_scan_group merged_df has_rain drop_threshold loc
       ((pd, pl, prev_impr) # (cd, cl, curr_impr) # rest) =
     (if prev_impr \<le> 0
      then ppt_scan_group merged_df has_rain drop_threshold loc ((cd, cl, curr_impr) # rest)
      else
        (let change = (curr_impr - prev_impr) / prev_impr;
             later = ppt_scan_group merged_df has_rain drop_threshold loc
                       ((cd, cl, curr_impr) # rest)
         in ((if change \<le> - drop_threshold
              then [\<lparr>f_location = loc, f_date = cd, drop_pct = - change * 100,
                     impressions_current = curr_impr, impressions_previous = prev_impr,
                     rainfall =
                       (if has_rain
                        then (if rain_vals merged_df cd loc \<noteq> []
                              then Some (nanmean (rain_vals merged_df cd loc)) else None)
                        else None)\<rparr>]
              else []) @ fst later,
             prev_impr # snd later)))"
| "ppt_scan_group merged_df has_rain drop_threshold loc _ = ([], [])"

definition ppt_scan :: "unified frame \<Rightarrow> real \<Rightarrow> finding list \<times> real list" where
  "ppt_scan merged_df drop_threshold =
     (if ''impressions'' \<notin> set (columns merged_df) \<or> ''location'' \<notin> set (columns merged_df)
         \<or> ''date'' \<notin> set (columns merged_df)
      then ([], [])
      else
        (let daily = daily_impressions (rows merged_df);
             has_rain = (''rainfall_mm'' \<in> set (columns merged_df));
             per_location =
               map (\<lambda>(loc, grp).
                      ppt_scan_group merged_df has_rain drop_threshold loc (sort_key fst grp))
                   (location_groups daily)
         in (concat (map fst per_location), concat (map snd per_location))))"

definition ppt_message :: "formatters \<Rightarrow> finding \<Rightarrow> string" where
  "ppt_message F f =
     ''Traffic dropped '' @ fmt_1f F (drop_pct f) @ ''% in '' @ f_location f @ '' on ''
       @ fmt_date F (f_date f) @ '' (impressions '' @ fmt_int F (impressions_current f)
       @ '' vs '' @ fmt_int F (impressions_previous f) @ '' previous day)''
       @ (case rainfall f of
            None \<Rightarrow> []
          | Some None \<Rightarrow> ''. Reported rainfall: nanmm.''
          | Some (Some rain) \<Rightarrow> ''. Reported rainfall: '' @ fmt_1f F rain @ ''mm.'')
       @ ''.''"

definition ppt_detect_anomalies :: "formatters \<Rightarrow> unified frame \<Rightarrow> real \<Rightarrow> string list" where
  "ppt_detect_anomalies F merged_df drop_threshold =
     map (ppt_message F) (fst (ppt_scan merged_df drop_threshold))"

text \<open>Both are called as \<^verbatim>\<open>_detect_anomalies(merged_df)\<close>, with the default threshold.\<close>

definition default_drop_threshold :: real where
  "default_drop_threshold = 0.3"

text \<open>The date-ordered daily series of one location, as the loop walks it.\<close>

definition series :: "unified frame \<Rightarrow> string \<Rightarrow> (int \<times> string \<times> real) list" where
  "series merged_df loc =
     sort_key fst (filter (\<lambda>(d, l, s). l = loc) (daily_impressions (rows merged_df)))"

text \<open>The locations in the order in which the outer loop visits them.\<close>

definition scan_locations :: "unified frame \<Rightarrow> string list" where
  "scan_locations merged_df =
     sort (remdups (map (\<lambda>(d, l, s). l) (daily_impressions (rows merged_df))))"

definition has_scan_columns :: "unified frame \<Rightarrow> bool" where
  "has_scan_columns merged_df \<longleftrightarrow>
     ''impressions'' \<in> set (columns merged_df) \<and> ''location'' \<in> set (columns merged_df)
       \<and> ''date'' \<in> set (columns merged_df)"

section \<open>Input datasets\<close>

text \<open>
  A cell of a \<^verbatim>\<open>date\<close> column: the text read from the file, a timestamp after conversion,
  or null. Key columns hold a string or null.
\<close>

datatype dcell = DStr string | DTs int | DNaT

record traffic_row =
  t_date :: dcell
  t_location :: "string option"
  t_campaign_id :: "string option"
  t_impressions :: cell

record clicks_row =
  c_date :: dcell
  c_campaign_id :: "string option"
  c_clicks :: cell
  c_conversions :: cell
  c_spend :: cell

record weather_row =
  w_date :: dcell
  w_location :: "string option"
  w_temperature_c :: cell
  w_rainfall_mm :: cell

datatype error = KeyError "string list" | DateParseError string | NameError string

datatype log_msg = MissingColumns string "string list" | ProcessingComplete nat

section \<open>process\_data\<close>

subsection \<open>Required columns\<close>

definition required_traffic_cols :: "string list" where
  "required_traffic_cols = [''date'', ''location'', ''campaign_id'', ''impressions'']"

definition required_clicks_cols :: "string list" where
  "required_clicks_cols = [''date'', ''campaign_id'', ''clicks'', ''conversions'', ''spend'']"

definition required_weather_cols :: "string list" where
  "required_weather_cols = [''date'', ''location'', ''temperature_c'', ''rainfall_mm'']"

text \<open>\<^verbatim>\<open>name.split('.')[0].split('_')[0] + "_df"\<close>\<close>

definition df_variable :: "string \<Rightarrow> string" where
  "df_variable name =
     takeWhile (\<lambda>ch. ch \<noteq> CHR ''_'') (takeWhile (\<lambda>ch. ch \<noteq> CHR ''.'') name) @ ''_df''"

text \<open>\<^verbatim>\<open>eval(v).columns\<close> among the function's dataset arguments; any other name is unbound.\<close>

definition eval_columns ::
  "traffic_row frame \<Rightarrow> clicks_row frame \<Rightarrow> weather_row frame \<Rightarrow> string
     \<Rightarrow> error + string list" where
  "eval_columns traffic_df clicks_df weather_df v =
     (if v = ''traffic_df'' then Inr (columns traffic_df)
      else if v = ''clicks_df'' then Inr (columns clicks_df)
      else if v = ''weather_df'' then Inr (columns weather_df)
      else Inl (NameError v))"

text \<open>
  The loop over the three (cols, name) pairs: \<^verbatim>\<open>missing = cols - set(....columns)\<close>, and a
  warning when it is not empty. (The order in which the warning lists the names is the
  iteration order of a Python set; the model lists them in the order of \<open>cols\<close>.)
\<close>

fun check_columns ::
  "traffic_row frame \<Rightarrow> clicks_row frame \<Rightarrow> weather_row frame
     \<Rightarrow> (string list \<times> string) list \<Rightarrow> error + log_msg list" where
  "check_columns traffic_df clicks_df weather_df [] = Inr []"
| "check_columns traffic_df clicks_df weather_df ((cols, name) # others) =
     (case eval_columns traffic_df clicks_df weather_df (df_variable name) of
        Inl e \<Rightarrow> Inl e
      | Inr present_cols \<Rightarrow>
          (let missing = filter (\<lambda>c. c \<notin> set present_cols) cols;
               warned = (if missing \<noteq> [] then [MissingColumns name missing] else [])
           in case check_columns traffic_df clicks_df weather_df others of
                Inl e \<Rightarrow> Inl e
              | Inr later \<Rightarrow> Inr (warned @ later)))"

subsection \<open>Date conversion\<close>

text \<open>
  \<^verbatim>\<open>pd.to_datetime\<close> is the library's; its reading of one text is the parameter \<open>parse\<close>.
  A text it cannot read raises, a timestamp stays, null becomes NaT.
\<close>

fun to_datetime_cell :: "(string \<Rightarrow> int option) \<Rightarrow> dcell \<Rightarrow> error + dcell" where
  "to_datetime_cell parse (DStr s) =
     (case parse s of None \<Rightarrow> Inl (DateParseError s) | Some t \<Rightarrow> Inr (DTs t))"
| "to_datetime_cell parse (DTs t) = Inr (DTs t)"
| "to_datetime_cell parse DNaT = Inr DNaT"

fun to_datetime :: "(string \<Rightarrow> int option) \<Rightarrow> dcell list \<Rightarrow> error + dcell list" where
  "to_datetime parse [] = Inr []"
| "to_datetime parse (x # xs) =
     (case to_datetime_cell parse x of
        Inl e \<Rightarrow> Inl e
      | Inr y \<Rightarrow> (case to_datetime parse xs of Inl e \<Rightarrow> Inl e | Inr ys \<Rightarrow> Inr (y # ys)))"

text \<open>\<^verbatim>\<open>if "date" in df.columns: df["date"] = pd.to_datetime(df["date"])\<close>, per dataset.\<close>

definition convert_traffic ::
  "(string \<Rightarrow> int option) \<Rightarrow> traffic_row frame \<Rightarrow> error + traffic_row frame" where
  "convert_traffic parse df =
     (if ''date'' \<in> set (columns df)
      then (case to_datetime parse (map t_date (rows df)) of
              Inl e \<Rightarrow> Inl e
            | Inr ds \<Rightarrow> Inr (df\<lparr>rows := map2 (\<lambda>r d. r\<lparr>t_date := d\<rparr>) (rows df) ds\<rparr>))
      else Inr df)"

definition convert_clicks ::
  "(string \<Rightarrow> int option) \<Rightarrow> clicks_row frame \<Rightarrow> error + clicks_row frame" where
  "convert_clicks parse df =
     (if ''date'' \<in> set (columns df)
      then (case to_datetime parse (map c_date (rows df)) of
              Inl e \<Rightarrow> Inl e
            | Inr ds \<Rightarrow> Inr (df\<lparr>rows := map2 (\<lambda>r d. r\<lparr>c_date := d\<rparr>) (rows df) ds\<rparr>))
      else Inr df)"

definition convert_weather ::
  "(string \<Rightarrow> int option) \<Rightarrow> weather_row frame \<Rightarrow> error + weather_row frame" where
  "convert_weather parse df =
     (if ''date'' \<in> set (columns df)
      then (case to_datetime parse (map w_date (rows df)) of
              Inl e \<Rightarrow> Inl e
            | Inr ds \<Rightarrow> Inr (df\<lparr>rows := map2 (\<lambda>r d. r\<lparr>w_date := d\<rparr>) (rows df) ds\<rparr>))
      else Inr df)"

subsection \<open>Aggregation\<close>

text \<open>
  \<^verbatim>\<open>groupby(keys, as_index=False)\<close> with the defaults \<^verbatim>\<open>sort=True, dropna=True\<close>: a row with
  a null in a key column belongs to no group, and the groups come in ascending key order.
  A key column that the frame lacks raises \<^verbatim>\<open>KeyError\<close> (the first one missing), and so
  does \<^verbatim>\<open>agg\<close> on a column that the frame lacks.
\<close>

definition group_keys :: "('r \<Rightarrow> 'k option) \<Rightarrow> 'r list \<Rightarrow> ('k::linorder) list" where
  "group_keys key rs = sort (remdups (List.map_filter key rs))"

definition group_rows :: "('r \<Rightarrow> 'k option) \<Rightarrow> 'r list \<Rightarrow> 'k \<Rightarrow> 'r list" where
  "group_rows key rs k = filter (\<lambda>r. key r = Some k) rs"

definition missing_columns :: "string list \<Rightarrow> string list \<Rightarrow> string list" where
  "missing_columns wanted cols = filter (\<lambda>c. c \<notin> set cols) wanted"

text \<open>The timestamp of a converted date cell; null, and text left unconverted, is no key.\<close>

fun timestamp :: "dcell \<Rightarrow> int option" where
  "timestamp (DTs t) = Some t"
| "timestamp _ = None"

definition traffic_key :: "traffic_row \<Rightarrow> (int \<times> string \<times> string) option" where
  "traffic_key r =
     (case (timestamp (t_date r), t_campaign_id r, t_location r) of
        (Some d, Some c, Some l) \<Rightarrow> Some (d, c, l)
      | _ \<Rightarrow> None)"

definition clicks_key :: "clicks_row \<Rightarrow> (int \<times> string) option" where
  "clicks_key r =
     (case (timestamp (c_date r), c_campaign_id r) of
        (Some d, Some c) \<Rightarrow> Some (d, c)
      | _ \<Rightarrow> None)"

definition weather_key :: "weather_row \<Rightarrow> (int \<times> string) option" where
  "weather_key r =
     (case (timestamp (w_date r), w_location r) of
        (Some d, Some l) \<Rightarrow> Some (d, l)
      | _ \<Rightarrow> None)"

text \<open>traffic\_agg: (date, campaign\_id, location) with the summed impressions.\<close>

definition traffic_agg ::
  "traffic_row frame \<Rightarrow> error + ((int \<times> string \<times> string) \<times> real) list" where
  "traffic_agg df =
     (case missing_columns [''date'', ''campaign_id'', ''location''] (columns df) of
        m # _ \<Rightarrow> Inl (KeyError [m])
      | [] \<Rightarrow>
          (case missing_columns [''impressions''] (columns df) of
             m # ms \<Rightarrow> Inl (KeyError (m # ms))
           | [] \<Rightarrow>
               Inr (map (\<lambda>k. (k, nansum (map t_impressions (group_rows traffic_key (rows df) k))))
                        (group_keys traffic_key (rows df)))))"

text \<open>clicks\_agg: (date, campaign\_id) with the summed clicks, conversions and spend.\<close>

definition clicks_agg ::
  "clicks_row frame \<Rightarrow> error + ((int \<times> string) \<times> real \<times> real \<times> real) list" where
  "clicks_agg df =
     (case missing_columns [''date'', ''campaign_id''] (columns df) of
        m # _ \<Rightarrow> Inl (KeyError [m])
      | [] \<Rightarrow>
          (case missing_columns [''clicks'', ''conversions'', ''spend''] (columns df) of
             m # ms \<Rightarrow> Inl (KeyError (m # ms))
           | [] \<Rightarrow>
               Inr (map (\<lambda>k. (k, nansum (map c_clicks (group_rows clicks_key (rows df) k)),
                                  nansum (map c_conversions (group_rows clicks_key (rows df) k)),
                                  nansum (map c_spend (group_rows clicks_key (rows df) k))))
                        (group_keys clicks_key (rows df)))))"

text \<open>weather\_agg: (date, location) with the mean temperature and the summed rainfall.\<close>

definition weather_agg ::
  "weather_row frame \<Rightarrow> error + ((int \<times> string) \<times> cell \<times> real) list" where
  "weather_agg df =
     (case missing_columns [''date'', ''location''] (columns df) of
        m # _ \<Rightarrow> Inl (KeyError [m])
      | [] \<Rightarrow>
          (case missing_columns [''temperature_c'', ''rainfall_mm''] (columns df) of
             m # ms \<Rightarrow> Inl (KeyError (m # ms))
           | [] \<Rightarrow>
               Inr (map (\<lambda>k. (k, nanmean (map w_temperature_c (group_rows weather_key (rows df) k)),
                                  nansum (map w_rainfall_mm (group_rows weather_key (rows df) k))))
                        (group_keys weather_key (rows df)))))"

subsection \<open>Joins and row metrics\<close>

text \<open>
  \<^verbatim>\<open>pd.merge(left, right, on=keys, how="left")\<close>: the left rows in order, each once per
  matching right row, and once with nulls when no right row matches.
\<close>

definition left_join ::
  "('a \<Rightarrow> 'k) \<Rightarrow> ('b \<Rightarrow> 'k) \<Rightarrow> ('a \<Rightarrow> 'b option \<Rightarrow> 'c) \<Rightarrow> 'a list \<Rightarrow> 'b list \<Rightarrow> 'c list" where
  "left_join kl kr combine ls rs =
     concat (map (\<lambda>a. case filter (\<lambda>b. kr b = kl a) rs of
                         [] \<Rightarrow> [combine a None]
                       | m # ms \<Rightarrow> map (\<lambda>b. combine a (Some b)) (m # ms)) ls)"

text \<open>traffic\_agg with clicks\_agg on (date, campaign\_id).\<close>

definition merge_clicks ::
  "((int \<times> string \<times> string) \<times> real) list \<Rightarrow> ((int \<times> string) \<times> real \<times> real \<times> real) list
     \<Rightarrow> ((int \<times> string \<times> string) \<times> real \<times> cell \<times> cell \<times> cell) list" where
  "merge_clicks =
     left_join (\<lambda>((d, c, l), i). (d, c)) fst
       (\<lambda>(k, i) b. case b of
            None \<Rightarrow> (k, i, None, None, None)
          | Some (_, cl, cv, sp) \<Rightarrow> (k, i, Some cl, Some cv, Some sp))"

text \<open>
  The result with weather\_agg on (date, location), and the four ratio columns:
  the Series division, then infinities replaced by NaN.
\<close>

definition unified_row ::
  "(int \<times> string \<times> string) \<times> real \<times> cell \<times> cell \<times> cell \<Rightarrow> cell \<Rightarrow> cell \<Rightarrow> unified" where
  "unified_row a temp rain =
     (case a of ((d, c, l), i, cl, cv, sp) \<Rightarrow>
        \<lparr>date = d, campaign_id = c, location = l, impressions = i,
         clicks = cl, conversions = cv, spend = sp,
         temperature_c = temp, rainfall_mm = rain,
         ctr = replace_inf (series_div cl (Some i)),
         cpc = replace_inf (series_div sp cl),
         conversion_rate = replace_inf (series_div cv cl),
         cpa = replace_inf (series_div sp cv)\<rparr>)"

definition merge_weather ::
  "((int \<times> string \<times> string) \<times> real \<times> cell \<times> cell \<times> cell) list
     \<Rightarrow> ((int \<times> string) \<times> cell \<times> real) list \<Rightarrow> unified list" where
  "merge_weather =
     left_join (\<lambda>((d, c, l), x). (d, l)) fst
       (\<lambda>a b. case b of
            None \<Rightarrow> unified_row a None None
          | Some (_, temp, rain) \<Rightarrow> unified_row a temp (Some rain))"

definition merged_columns :: "string list" where
  "merged_columns =
     [''date'', ''campaign_id'', ''location'', ''impressions'', ''clicks'', ''conversions'',
      ''spend'', ''temperature_c'', ''rainfall_mm'', ''ctr'', ''cpc'', ''conversion_rate'',
      ''cpa'']"

subsection \<open>Summaries\<close>

record overall =
  total_impressions :: real
  total_clicks :: real
  total_conversions :: real
  total_spend :: real
  overall_ctr :: real
  overall_cpc :: real
  overall_cvr :: real
  overall_cpa :: real

definition overall_metrics :: "unified list \<Rightarrow> overall" where
  "overall_metrics merged =
     (let ti = sum_list (map impressions merged);
          tc = nansum (map clicks merged);
          tv = nansum (map conversions merged);
          ts = nansum (map spend merged)
      in \<lparr>total_impressions = ti, total_clicks = tc, total_conversions = tv,
          total_spend = ts,
          overall_ctr = (if ti \<noteq> 0 then tc / ti else 0),
          overall_cpc = (if tc \<noteq> 0 then ts / tc else 0),
          overall_cvr = (if tc \<noteq> 0 then tv / tc else 0),
          overall_cpa = (if tv \<noteq> 0 then ts / tv else 0)\<rparr>)"

record campaign_row =
  cs_campaign_id :: string
  cs_impressions :: real
  cs_clicks :: real
  cs_conversions :: real
  cs_spend :: real
  cs_ctr :: fval
  cs_cpc :: fval
  cs_cvr :: fval
  cs_cpa :: fval

text \<open>
  \<^verbatim>\<open>merged.groupby("campaign_id").agg(...sums...).reset_index()\<close>, then the four ratio
  columns by Series division. The numeric columns are taken to have a numeric dtype, as the
  reader gives them for a file with at least one data row; the object-dtype columns of a
  header-only file, whose sums are Python integers and whose division raises
  \<^verbatim>\<open>ZeroDivisionError\<close>, are outside this model.
\<close>

definition campaign_summary :: "unified list \<Rightarrow> campaign_row list" where
  "campaign_summary merged =
     map (\<lambda>c.
            (let g = filter (\<lambda>r. campaign_id r = c) merged;
                 i = sum_list (map impressions g);
                 cl = nansum (map clicks g);
                 cv = nansum (map conversions g);
                 sp = nansum (map spend g)
             in \<lparr>cs_campaign_id = c, cs_impressions = i, cs_clicks = cl,
                 cs_conversions = cv, cs_spend = sp,
                 cs_ctr = series_div (Some cl) (Some i),
                 cs_cpc = series_div (Some sp) (Some cl),
                 cs_cvr = series_div (Some cv) (Some cl),
                 cs_cpa = series_div (Some sp) (Some cv)\<rparr>))
         (sort (remdups (map campaign_id merged)))"

record 's metrics =
  m_overall :: overall
  m_campaign_summary :: "campaign_row list"
  m_sql_preview :: "'s list option"

subsection \<open>The function\<close>

text \<open>Everything after the date conversion: it reads the converted frames only.\<close>

definition reconcile ::
  "traffic_row frame \<Rightarrow> clicks_row frame \<Rightarrow> weather_row frame \<Rightarrow> 's list option
     \<Rightarrow> error + unified frame \<times> 's metrics" where
  "reconcile traffic_df clicks_df weather_df sql_df =
     (case traffic_agg traffic_df of
        Inl e \<Rightarrow> Inl e
      | Inr ta \<Rightarrow>
     (case clicks_agg clicks_df of
        Inl e \<Rightarrow> Inl e
      | Inr ca \<Rightarrow>
     (case weather_agg weather_df of
        Inl e \<Rightarrow> Inl e
      | Inr wa \<Rightarrow>
          (let merged = merge_weather (merge_clicks ta ca) wa
           in Inr (\<lparr>columns = merged_columns, rows = merged\<rparr>,
                   \<lparr>m_overall = overall_metrics merged,
                    m_campaign_summary = campaign_summary merged,
                    m_sql_preview = map_option (take 5) sql_df\<rparr>)))))"

text \<open>
  What the call leaves behind: the three argument frames, which it assigns to in place,
  and the log.
\<close>

record after_call =
  traffic_after :: "traffic_row frame"
  clicks_after :: "clicks_row frame"
  weather_after :: "weather_row frame"
  logged :: "log_msg list"

definition process_data ::
  "(string \<Rightarrow> int option) \<Rightarrow> traffic_row frame \<Rightarrow> clicks_row frame \<Rightarrow> weather_row frame
     \<Rightarrow> 's list option \<Rightarrow> after_call \<times> (error + unified frame \<times> 's metrics)" where
  "process_data parse traffic_df clicks_df weather_df sql_df =
     (case check_columns traffic_df clicks_df weather_df
             [(required_traffic_cols, ''traffic.csv''),
              (required_clicks_cols, ''clicks.csv''),
              (required_weather_cols, ''weather.csv'')] of
        Inl e \<Rightarrow>
          (\<lparr>traffic_after = traffic_df, clicks_after = clicks_df,
            weather_after = weather_df, logged = []\<rparr>, Inl e)
      | Inr warnings \<Rightarrow>
     (case convert_traffic parse traffic_df of
        Inl e \<Rightarrow>
          (\<lparr>traffic_after = traffic_df, clicks_after = clicks_df,
            weather_after = weather_df, logged = warnings\<rparr>, Inl e)
      | Inr tdf \<Rightarrow>
     (case convert_clicks parse clicks_df of
        Inl e \<Rightarrow>
          (\<lparr>traffic_after = tdf, clicks_after = clicks_df,
            weather_after = weather_df, logged = warnings\<rparr>, Inl e)
      | Inr cdf \<Rightarrow>
     (case convert_weather parse weather_df of
        Inl e \<Rightarrow>
          (\<lparr>traffic_after = tdf, clicks_after = cdf,
            weather_after = weather_df, logged = warnings\<rparr>, Inl e)
      | Inr wdf \<Rightarrow>
     (case reconcile tdf cdf wdf sql_df of
        Inl e \<Rightarrow>
          (\<lparr>traffic_after = tdf, clicks_after = cdf,
            weather_after = wdf, logged = warnings\<rparr>, Inl e)
      | Inr (merged, metrics) \<Rightarrow>
          (\<lparr>traffic_after = tdf, clicks_after = cdf, weather_after = wdf,
            logged = warnings @ [ProcessingComplete (length (rows merged))]\<rparr>,
           Inr (merged, metrics)))))))"

section \<open>The report pipeline and example inputs\<close>

text \<open>
  \<^verbatim>\<open>main\<close> hands the merged dataset of \<^verbatim>\<open>process_data\<close> to the report generator, which
  calls \<^verbatim>\<open>_detect_anomalies(merged_df)\<close>.
\<close>

definition pdf_report_findings ::
  "(string \<Rightarrow> int option) \<Rightarrow> traffic_row frame \<Rightarrow> clicks_row frame \<Rightarrow> weather_row frame
     \<Rightarrow> error + finding list" where
  "pdf_report_findings parse traffic_df clicks_df weather_df =
     (case snd (process_data parse traffic_df clicks_df weather_df (None :: unit list option)) of
        Inl e \<Rightarrow> Inl e
      | Inr (merged_df, metrics) \<Rightarrow> Inr (fst (pdf_scan merged_df default_drop_threshold)))"

definition pdf_report_anomalies ::
  "formatters \<Rightarrow> (string \<Rightarrow> int option) \<Rightarrow> traffic_row frame \<Rightarrow> clicks_row frame
     \<Rightarrow> weather_row frame \<Rightarrow> error + string list" where
  "pdf_report_anomalies F parse traffic_df clicks_df weather_df =
     (case snd (process_data parse traffic_df clicks_df weather_df (None :: unit list option)) of
        Inl e \<Rightarrow> Inl e
      | Inr (merged_df, metrics) \<Rightarrow>
          Inr (pdf_detect_anomalies F merged_df default_drop_threshold))"

text \<open>A reading of two dates, as day numbers, for the examples.\<close>

definition example_parse :: "string \<Rightarrow> int option" where
  "example_parse = map_of [(''2025-01-04'', 4), (''2025-01-05'', 5)]"

definition traffic_columns :: "string list" where
  "traffic_columns = [''date'', ''location'', ''campaign_id'', ''impressions'']"

definition clicks_columns :: "string list" where
  "clicks_columns = [''date'', ''campaign_id'', ''clicks'', ''conversions'', ''spend'']"

definition weather_columns :: "string list" where
  "weather_columns = [''date'', ''location'', ''temperature_c'', ''rainfall_mm'']"

text \<open>The end-to-end scenario: Delhi, CAMP01, 1000 impressions and then 600.\<close>

definition scenario_traffic :: "traffic_row frame" where
  "scenario_traffic =
     \<lparr>columns = traffic_columns,
      rows = [\<lparr>t_date = DStr ''2025-01-04'', t_location = Some ''Delhi'',
                t_campaign_id = Some ''CAMP01'', t_impressions = Some 1000\<rparr>,
              \<lparr>t_date = DStr ''2025-01-05'', t_location = Some ''Delhi'',
                t_campaign_id = Some ''CAMP01'', t_impressions = Some 600\<rparr>]\<rparr>"

definition scenario_clicks :: "clicks_row frame" where
  "scenario_clicks =
     \<lparr>columns = clicks_columns,
      rows = [\<lparr>c_date = DStr ''2025-01-04'', c_campaign_id = Some ''CAMP01'',
                c_clicks = Some 50, c_conversions = Some 5, c_spend = Some 100\<rparr>,
              \<lparr>c_date = DStr ''2025-01-05'', c_campaign_id = Some ''CAMP01'',
                c_clicks = Some 30, c_conversions = Some 3, c_spend = Some 60\<rparr>]\<rparr>"

definition scenario_weather :: "weather_row frame" where
  "scenario_weather =
     \<lparr>columns = weather_columns,
      rows = [\<lparr>w_date = DStr ''2025-01-05'', w_location = Some ''Delhi'',
                w_temperature_c = Some 25, w_rainfall_mm = Some 12\<rparr>]\<rparr>"

text \<open>Weather read on the first day only: the second day has no rainfall reading.\<close>

definition first_day_weather :: "weather_row frame" where
  "first_day_weather =
     \<lparr>columns = weather_columns,
      rows = [\<lparr>w_date = DStr ''2025-01-04'', w_location = Some ''Delhi'',
                w_temperature_c = Some 25, w_rainfall_mm = Some 12\<rparr>]\<rparr>"

definition no_weather :: "weather_row frame" where
  "no_weather = \<lparr>columns = weather_columns, rows = []\<rparr>"

text \<open>One traffic row with no impressions, and five clicks on it.\<close>

definition idle_traffic :: "traffic_row frame" where
  "idle_traffic =
     \<lparr>columns = traffic_columns,
      rows = [\<lparr>t_date = DStr ''2025-01-04'', t_location = Some ''Delhi'',
                t_campaign_id = Some ''CAMP01'', t_impressions = Some 0\<rparr>]\<rparr>"

definition five_clicks :: "clicks_row frame" where
  "five_clicks =
     \<lparr>columns = clicks_columns,
      rows = [\<lparr>c_date = DStr ''2025-01-04'', c_campaign_id = Some ''CAMP01'',
                c_clicks = Some 5, c_conversions = Some 1, c_spend = Some 10\<rparr>]\<rparr>"

text \<open>One traffic row with 100 impressions, and a click record of zeros for it.\<close>

definition hundred_traffic :: "traffic_row frame" where
  "hundred_traffic =
     \<lparr>columns = traffic_columns,
      rows = [\<lparr>t_date = DStr ''2025-01-04'', t_location = Some ''Delhi'',
                t_campaign_id = Some ''CAMP01'', t_impressions = Some 100\<rparr>]\<rparr>"

definition zero_clicks :: "clicks_row frame" where
  "zero_clicks =
     \<lparr>columns = clicks_columns,
      rows = [\<lparr>c_date = DStr ''2025-01-04'', c_campaign_id = Some ''CAMP01'',
                c_clicks = Some 0, c_conversions = Some 0, c_spend = Some 0\<rparr>]\<rparr>"


text \<open>The scenario's traffic file without its location column.\<close>

definition traffic_without_location :: "traffic_row frame" where
  "traffic_without_location =
     scenario_traffic\<lparr>columns := [''date'', ''campaign_id'', ''impressions'']\<rparr>"

text \<open>What \<^verbatim>\<open>process_data\<close> returns on the two one-row inputs.\<close>

definition idle_row :: unified where
  "idle_row =
     \<lparr>date = 4, campaign_id = ''CAMP01'', location = ''Delhi'', impressions = 0,
      clicks = Some 5, conversions = Some 1, spend = Some 10,
      temperature_c = None, rainfall_mm = None,
      ctr = NaN, cpc = Fin 2, conversion_rate = Fin (1 / 5), cpa = Fin 10\<rparr>"

definition idle_metrics :: "unit metrics" where
  "idle_metrics =
     \<lparr>m_overall =
        \<lparr>total_impressions = 0, total_clicks = 5, total_conversions = 1, total_spend = 10,
         overall_ctr = 0, overall_cpc = 2, overall_cvr = 1 / 5, overall_cpa = 10\<rparr>,
      m_campaign_summary =
        [\<lparr>cs_campaign_id = ''CAMP01'', cs_impressions = 0, cs_clicks = 5,
          cs_conversions = 1, cs_spend = 10,
          cs_ctr = PInf, cs_cpc = Fin 2, cs_cvr = Fin (1 / 5), cs_cpa = Fin 10\<rparr>],
      m_sql_preview = None\<rparr>"

definition hundred_row :: unified where
  "hundred_row =
     \<lparr>date = 4, campaign_id = ''CAMP01'', location = ''Delhi'', impressions = 100,
      clicks = Some 0, conversions = Some 0, spend = Some 0,
      temperature_c = None, rainfall_mm = None,
      ctr = Fin 0, cpc = NaN, conversion_rate = NaN, cpa = NaN\<rparr>"

definition hundred_metrics :: "unit metrics" where
  "hundred_metrics =
     \<lparr>m_overall =
        \<lparr>total_impressions = 100, total_clicks = 0, total_conversions = 0, total_spend = 0,
         overall_ctr = 0, overall_cpc = 0, overall_cvr = 0, overall_cpa = 0\<rparr>,
      m_campaign_summary =
        [\<lparr>cs_campaign_id = ''CAMP01'', cs_impressions = 100, cs_clicks = 0,
          cs_conversions = 0, cs_spend = 0,
          cs_ctr = Fin 0, cs_cpc = NaN, cs_cvr = NaN, cs_cpa = NaN\<rparr>],
      m_sql_preview = None\<rparr>"



text \<open>A unified dataset in which Delhi has no impressions on day 4 and 50 on day 5.\<close>

definition silent_merged :: "unified frame" where
  "silent_merged =
     \<lparr>columns = merged_columns,
      rows = [unified_row ((4, ''CAMP01'', ''Delhi''), 0, None, None, None) None None,
              unified_row ((5, ''CAMP01'', ''Delhi''), 50, None, None, None) None None,
              unified_row ((6, ''CAMP01'', ''Delhi''), 10, None, None, None) None None]\<rparr>"



section \<open>The two scanners agree\<close>

lemma ppt_scan_group_eq:
  "ppt_scan_group m h t loc xs = pdf_scan_group m h t loc xs"
  by (induction m h t loc xs rule: pdf_scan_group.induct) simp_all

lemma ppt_scan_eq: "ppt_scan m t = pdf_scan m t"
  by (simp add: ppt_scan_def pdf_scan_def ppt_scan_group_eq)

lemma ppt_message_eq: "ppt_message F f = pdf_message F f"
  by (simp add: ppt_message_def pdf_message_def)

text \<open>
  Claim C10. For every unified dataset, every threshold and every formatting of numbers
  and dates, the anomaly functions of the PDF and of the PPT report generator return the
  same list of sentences, in the same order.
\<close>

theorem detect_anomalies_pdf_ppt_equal:
  "ppt_detect_anomalies F merged_df drop_threshold
     = pdf_detect_anomalies F merged_df drop_threshold"
  by (simp add: ppt_detect_anomalies_def pdf_detect_anomalies_def ppt_scan_eq ppt_message_eq)

section \<open>Evaluations of the pipeline\<close>

lemma pdf_report_anomalies_findings:
  "pdf_report_anomalies F parse t c w
     = map_sum id (map (pdf_message F)) (pdf_report_findings parse t c w)"
  by (simp add: pdf_report_anomalies_def pdf_report_findings_def pdf_detect_anomalies_def
      split: sum.splits prod.splits)

lemma first_day_weather_findings:
  "pdf_report_findings example_parse scenario_traffic scenario_clicks first_day_weather
     = Inr [\<lparr>f_location = ''Delhi'', f_date = 5, drop_pct = 40, impressions_current = 600,
             impressions_previous = 1000, rainfall = Some None\<rparr>]"
  by code_simp

text \<open>
  Claim C3 (the code departs from it). One campaign with 0 summed impressions and 5 summed
  clicks: the campaign summary's ctr is the division's raw result, positive infinity, where
  the claim wants null. The campaign ratios are never passed through the replacement of
  infinities that the row-level ratios get.
\<close>

theorem campaign_summary_infinite_ctr:
  "map_sum id (\<lambda>(merged_df, metrics).
        map (\<lambda>c. (cs_impressions c, cs_clicks c, cs_ctr c)) (m_campaign_summary metrics))
     (snd (process_data example_parse idle_traffic five_clicks no_weather
             (None :: unit list option)))
   = Inr [(0, 5, PInf)]"
  by code_simp

text \<open>On the same input the row-level ctr is null: the sibling path normalises.\<close>

lemma row_level_ctr_normalised:
  "map_sum id (\<lambda>(merged_df, metrics).
        map (\<lambda>u. (impressions u, clicks u, ctr u)) (rows merged_df))
     (snd (process_data example_parse idle_traffic five_clicks no_weather
             (None :: unit list option)))
   = Inr [(0, Some 5, NaN)]"
  by code_simp

text \<open>
  Claim C4 (the code departs from it). The traffic dataset lacks its location column: the
  omission is logged for traffic.csv, and then the aggregation raises \<^verbatim>\<open>KeyError\<close>; no
  unified dataset is returned.
\<close>

theorem missing_column_aborts:
  "logged (fst (process_data example_parse traffic_without_location scenario_clicks
                  scenario_weather (None :: unit list option)))
     = [MissingColumns ''traffic.csv'' [''location'']]
   \<and> snd (process_data example_parse traffic_without_location scenario_clicks
            scenario_weather (None :: unit list option))
     = Inl (KeyError [''location''])"
  by code_simp

text \<open>
  Claim C8 (the code departs from it). The drop falls on a day for which the unified
  dataset has no rainfall reading (the left join left it null): the finding still carries
  a rainfall clause, holding the NaN mean, and the sentence reads "nanmm".
\<close>

theorem rainfall_nan_reported:
  "pdf_report_findings example_parse scenario_traffic scenario_clicks first_day_weather
     = Inr [\<lparr>f_location = ''Delhi'', f_date = 5, drop_pct = 40, impressions_current = 600,
             impressions_previous = 1000, rainfall = Some None\<rparr>]
   \<and> pdf_report_anomalies F example_parse scenario_traffic scenario_clicks first_day_weather
     = Inr [''Traffic dropped '' @ fmt_1f F 40 @ ''% in Delhi on '' @ fmt_date F 5
          @ '' (impressions '' @ fmt_int F 600 @ '' vs '' @ fmt_int F 1000
          @ '' previous day). Reported rainfall: nanmm..'']"
  by (simp add: pdf_report_anomalies_findings first_day_weather_findings pdf_message_def)

section \<open>The unified dataset\<close>

lemma process_data_InrD:
  assumes "snd (process_data parse t c w sql) = Inr (merged, metrics)"
  shows "\<exists>tdf cdf wdf. convert_traffic parse t = Inr tdf \<and> convert_clicks parse c = Inr cdf
           \<and> convert_weather parse w = Inr wdf \<and> reconcile tdf cdf wdf sql = Inr (merged, metrics)"
  using assms
  by (auto simp: process_data_def split: sum.splits prod.splits)

lemma reconcile_InrD:
  assumes "reconcile tdf cdf wdf sql = Inr (merged, metrics)"
  shows "\<exists>ta ca wa. traffic_agg tdf = Inr ta \<and> clicks_agg cdf = Inr ca \<and> weather_agg wdf = Inr wa
           \<and> rows merged = merge_weather (merge_clicks ta ca) wa
           \<and> columns merged = merged_columns
           \<and> m_overall metrics = overall_metrics (rows merged)
           \<and> m_campaign_summary metrics = campaign_summary (rows merged)"
  using assms
  by (auto simp: reconcile_def Let_def split: sum.splits)

lemma left_join_elem:
  assumes "x \<in> set (left_join kl kr combine ls rs)"
  shows "\<exists>a b. a \<in> set ls \<and> x = combine a b"
proof -
  from assms obtain a where a: "a \<in> set ls"
    and x: "x \<in> set (case filter (\<lambda>b. kr b = kl a) rs of
                [] \<Rightarrow> [combine a None]
              | m # ms \<Rightarrow> map (\<lambda>b. combine a (Some b)) (m # ms))"
    unfolding left_join_def by auto
  show ?thesis
  proof (cases "filter (\<lambda>b. kr b = kl a) rs")
    case Nil
    with x have "x = combine a None" by simp
    with a show ?thesis by blast
  next
    case (Cons m ms)
    with x obtain b where "x = combine a (Some b)" by auto
    with a show ?thesis by blast
  qed
qed

lemma merge_weather_elem:
  assumes "u \<in> set (merge_weather xs wa)"
  shows "\<exists>a temp rain. u = unified_row a temp rain"
proof -
  from left_join_elem [OF assms [unfolded merge_weather_def]]
  obtain a and b :: "((int \<times> string) \<times> cell \<times> real) option"
    where "u = (case b of None \<Rightarrow> unified_row a None None
          | Some (k, temp, rain) \<Rightarrow> unified_row a temp (Some rain))"
    by blast
  then show ?thesis
    by (cases b) (auto simp del: split_paired_Ex)
qed

lemma series_div_NaN_iff:
  "replace_inf (series_div a b) = NaN \<longleftrightarrow> a = None \<or> b = None \<or> b = Some 0"
  by (cases a; cases b) auto

lemma replace_inf_finite: "replace_inf v \<noteq> PInf \<and> replace_inf v \<noteq> NInf"
  by (cases v) auto

lemma unified_row_ratios:
  assumes "u = unified_row a temp rain"
  shows "(ctr u = NaN \<longleftrightarrow> impressions u = 0 \<or> clicks u = None)
       \<and> (cpc u = NaN \<longleftrightarrow> clicks u = Some 0 \<or> clicks u = None \<or> spend u = None)
       \<and> (conversion_rate u = NaN \<longleftrightarrow> clicks u = Some 0 \<or> clicks u = None \<or> conversions u = None)
       \<and> (cpa u = NaN \<longleftrightarrow> conversions u = Some 0 \<or> conversions u = None \<or> spend u = None)
       \<and> ctr u \<notin> {PInf, NInf} \<and> cpc u \<notin> {PInf, NInf}
       \<and> conversion_rate u \<notin> {PInf, NInf} \<and> cpa u \<notin> {PInf, NInf}"
  using assms
  by (auto simp: unified_row_def series_div_NaN_iff replace_inf_finite split: prod.splits)

lemma idle_result:
  "snd (process_data example_parse idle_traffic five_clicks no_weather None)
     = Inr (\<lparr>columns = merged_columns, rows = [idle_row]\<rparr>, idle_metrics)"
  by code_simp

lemma hundred_result:
  "snd (process_data example_parse hundred_traffic zero_clicks no_weather None)
     = Inr (\<lparr>columns = merged_columns, rows = [hundred_row]\<rparr>, hundred_metrics)"
  by code_simp

lemma nansum_nulls_as_zero:
  "nansum cs = sum_list (map (\<lambda>c. case c of None \<Rightarrow> 0 | Some x \<Rightarrow> x) cs)"
  unfolding nansum_def
  by (induction cs rule: present.induct) simp_all

text \<open>
  Claim C2. Whenever \<^verbatim>\<open>process_data\<close> returns, every record of the unified dataset has
  each derived ratio null exactly when its denominator is zero or an operand is null
  (impressions is never null: it is a sum), and no ratio is infinite.
\<close>

theorem ratio_null_policy:
  assumes "snd (process_data parse traffic_df clicks_df weather_df sql_df) = Inr (merged_df, metrics)"
      and "u \<in> set (rows merged_df)"
  shows "(ctr u = NaN \<longleftrightarrow> impressions u = 0 \<or> clicks u = None)
       \<and> (cpc u = NaN \<longleftrightarrow> clicks u = Some 0 \<or> clicks u = None \<or> spend u = None)
       \<and> (conversion_rate u = NaN \<longleftrightarrow> clicks u = Some 0 \<or> clicks u = None \<or> conversions u = None)
       \<and> (cpa u = NaN \<longleftrightarrow> conversions u = Some 0 \<or> conversions u = None \<or> spend u = None)
       \<and> ctr u \<notin> {PInf, NInf} \<and> cpc u \<notin> {PInf, NInf}
       \<and> conversion_rate u \<notin> {PInf, NInf} \<and> cpa u \<notin> {PInf, NInf}"
proof -
  from assms(1) obtain tdf cdf wdf where "reconcile tdf cdf wdf sql_df = Inr (merged_df, metrics)"
    by (blast dest: process_data_InrD)
  then obtain ta ca wa where "rows merged_df = merge_weather (merge_clicks ta ca) wa"
    by (blast dest: reconcile_InrD)
  with assms(2) obtain a temp rain where "u = unified_row a temp rain"
    by (auto dest: merge_weather_elem)
  then show ?thesis by (rule unified_row_ratios)
qed


theorem ratio_null_policy_witness:
  "snd (process_data example_parse idle_traffic five_clicks no_weather None)
     = Inr (\<lparr>columns = merged_columns, rows = [idle_row]\<rparr>, idle_metrics)
   \<and> idle_row \<in> set (rows \<lparr>columns = merged_columns, rows = [idle_row]\<rparr>)
   \<and> ctr idle_row = NaN \<and> impressions idle_row = 0
   \<and> cpc idle_row \<noteq> NaN \<and> clicks idle_row = Some 5 \<and> spend idle_row = Some 10
   \<and> cpc idle_row \<notin> {PInf, NInf}"
  using ratio_null_policy [OF idle_result, of idle_row]
  by (simp add: idle_result) (simp add: idle_row_def)

text \<open>
  Claim C5, as stated, fails in its last clause: a record with clicks = 0 and 100
  impressions has ctr = 0.0, not null, in a run whose total\_clicks is 0 and whose
  overall\_ctr is 0.0.
\<close>

theorem zero_clicks_row_ctr_not_null:
  "map_sum id (\<lambda>(merged_df, metrics).
        (map (\<lambda>u. (impressions u, clicks u, ctr u)) (rows merged_df),
         total_clicks (m_overall metrics), overall_ctr (m_overall metrics)))
     (snd (process_data example_parse hundred_traffic zero_clicks no_weather
             (None :: unit list option)))
   = Inr ([(100, Some 0, Fin 0)], 0, 0)"
  by code_simp

text \<open>
  Claim C5, amended. In the Overall Summary the four totals are the sums over the unified
  records with nulls counted as 0, each ratio is the quotient of its totals and is 0.0 when
  its denominator total is 0; when total\_clicks is 0, overall\_ctr is 0.0. A record with
  clicks = 0 has ctr = null when its impressions are 0 as well, and ctr = 0.0 otherwise.
\<close>

theorem overall_summary_ratios:
  assumes "snd (process_data parse traffic_df clicks_df weather_df sql_df)
             = Inr (merged_df, metrics)"
  shows "total_impressions (m_overall metrics) = (\<Sum>u\<leftarrow>rows merged_df. impressions u)
       \<and> total_clicks (m_overall metrics)
           = (\<Sum>u\<leftarrow>rows merged_df. case clicks u of None \<Rightarrow> 0 | Some x \<Rightarrow> x)
       \<and> total_conversions (m_overall metrics)
           = (\<Sum>u\<leftarrow>rows merged_df. case conversions u of None \<Rightarrow> 0 | Some x \<Rightarrow> x)
       \<and> total_spend (m_overall metrics)
           = (\<Sum>u\<leftarrow>rows merged_df. case spend u of None \<Rightarrow> 0 | Some x \<Rightarrow> x)
       \<and> overall_ctr (m_overall metrics)
           = (if total_impressions (m_overall metrics) = 0 then 0
              else total_clicks (m_overall metrics) / total_impressions (m_overall metrics))
       \<and> overall_cpc (m_overall metrics)
           = (if total_clicks (m_overall metrics) = 0 then 0
              else total_spend (m_overall metrics) / total_clicks (m_overall metrics))
       \<and> overall_cvr (m_overall metrics)
           = (if total_clicks (m_overall metrics) = 0 then 0
              else total_conversions (m_overall metrics) / total_clicks (m_overall metrics))
       \<and> overall_cpa (m_overall metrics)
           = (if total_conversions (m_overall metrics) = 0 then 0
              else total_spend (m_overall metrics) / total_conversions (m_overall metrics))
       \<and> (total_clicks (m_overall metrics) = 0 \<longrightarrow> overall_ctr (m_overall metrics) = 0)
       \<and> (\<forall>u \<in> set (rows merged_df).
             (clicks u = Some 0 \<and> impressions u = 0 \<longrightarrow> ctr u = NaN)
           \<and> (clicks u = Some 0 \<and> impressions u \<noteq> 0 \<longrightarrow> ctr u = Fin 0))"
proof -
  from assms obtain tdf cdf wdf where "reconcile tdf cdf wdf sql_df = Inr (merged_df, metrics)"
    by (blast dest: process_data_InrD)
  then obtain ta ca wa where rows: "rows merged_df = merge_weather (merge_clicks ta ca) wa"
    and ov: "m_overall metrics = overall_metrics (rows merged_df)"
    by (blast dest: reconcile_InrD)
  have row: "(clicks u = Some 0 \<and> impressions u = 0 \<longrightarrow> ctr u = NaN)
           \<and> (clicks u = Some 0 \<and> impressions u \<noteq> 0 \<longrightarrow> ctr u = Fin 0)"
    if "u \<in> set (rows merged_df)" for u
  proof -
    from that rows obtain a temp rain where "u = unified_row a temp rain"
      by (auto dest: merge_weather_elem)
    then show ?thesis
      by (auto simp: unified_row_def split: prod.splits)
  qed
  show ?thesis
    using row
    by (simp add: ov overall_metrics_def Let_def nansum_nulls_as_zero comp_def)
qed

theorem overall_summary_ratios_witness:
  "snd (process_data example_parse hundred_traffic zero_clicks no_weather None)
     = Inr (\<lparr>columns = merged_columns, rows = [hundred_row]\<rparr>, hundred_metrics)
   \<and> total_clicks (m_overall hundred_metrics) = 0
   \<and> overall_ctr (m_overall hundred_metrics) = 0
   \<and> overall_cpc (m_overall hundred_metrics) = 0
   \<and> clicks hundred_row = Some 0 \<and> impressions hundred_row = 100
   \<and> ctr hundred_row = Fin 0"
  using overall_summary_ratios [OF hundred_result]
  by (simp add: hundred_result) (simp add: hundred_row_def hundred_metrics_def)

section \<open>The inputs after the call\<close>

lemma to_datetime_cell_idem:
  "to_datetime_cell parse x = Inr y \<Longrightarrow> to_datetime_cell parse y = Inr y"
  by (cases x) (auto split: option.splits)

lemma to_datetime_idem:
  "to_datetime parse xs = Inr ys \<Longrightarrow> length ys = length xs \<and> to_datetime parse ys = Inr ys"
proof (induction xs arbitrary: ys)
  case Nil
  then show ?case by simp
next
  case (Cons x xs)
  then show ?case
    by (auto split: sum.splits dest: to_datetime_cell_idem)
qed

lemma check_columns_cong:
  assumes "columns t' = columns t" "columns c' = columns c" "columns w' = columns w"
  shows "check_columns t' c' w' xs = check_columns t c w xs"
  by (induction xs) (auto simp: eval_columns_def assms split: sum.splits)

lemma set_dates_traffic:
  assumes "length ds = length rs"
  shows "map t_date (map2 (\<lambda>r d. r\<lparr>t_date := d\<rparr>) rs ds) = ds
       \<and> map2 (\<lambda>r d. r\<lparr>t_date := d\<rparr>) (map2 (\<lambda>r d. r\<lparr>t_date := d\<rparr>) rs ds) ds
           = map2 (\<lambda>r d. r\<lparr>t_date := d\<rparr>) rs ds
       \<and> map (\<lambda>r. r\<lparr>t_date := DNaT\<rparr>) (map2 (\<lambda>r d. r\<lparr>t_date := d\<rparr>) rs ds)
           = map (\<lambda>r. r\<lparr>t_date := DNaT\<rparr>) rs"
  using assms by (induction ds rs rule: list_induct2) auto

lemma set_dates_clicks:
  assumes "length ds = length rs"
  shows "map c_date (map2 (\<lambda>r d. r\<lparr>c_date := d\<rparr>) rs ds) = ds
       \<and> map2 (\<lambda>r d. r\<lparr>c_date := d\<rparr>) (map2 (\<lambda>r d. r\<lparr>c_date := d\<rparr>) rs ds) ds
           = map2 (\<lambda>r d. r\<lparr>c_date := d\<rparr>) rs ds
       \<and> map (\<lambda>r. r\<lparr>c_date := DNaT\<rparr>) (map2 (\<lambda>r d. r\<lparr>c_date := d\<rparr>) rs ds)
           = map (\<lambda>r. r\<lparr>c_date := DNaT\<rparr>) rs"
  using assms by (induction ds rs rule: list_induct2) auto

lemma set_dates_weather:
  assumes "length ds = length rs"
  shows "map w_date (map2 (\<lambda>r d. r\<lparr>w_date := d\<rparr>) rs ds) = ds
       \<and> map2 (\<lambda>r d. r\<lparr>w_date := d\<rparr>) (map2 (\<lambda>r d. r\<lparr>w_date := d\<rparr>) rs ds) ds
           = map2 (\<lambda>r d. r\<lparr>w_date := d\<rparr>) rs ds
       \<and> map (\<lambda>r. r\<lparr>w_date := DNaT\<rparr>) (map2 (\<lambda>r d. r\<lparr>w_date := d\<rparr>) rs ds)
           = map (\<lambda>r. r\<lparr>w_date := DNaT\<rparr>) rs"
  using assms by (induction ds rs rule: list_induct2) auto

lemma convert_traffic_effect:
  assumes "convert_traffic parse t = Inr t'"
  shows "columns t' = columns t
       \<and> map (\<lambda>r. r\<lparr>t_date := DNaT\<rparr>) (rows t') = map (\<lambda>r. r\<lparr>t_date := DNaT\<rparr>) (rows t)
       \<and> convert_traffic parse t' = Inr t'
       \<and> (''date'' \<in> set (columns t) \<longrightarrow>
            to_datetime parse (map t_date (rows t)) = Inr (map t_date (rows t')))
       \<and> (''date'' \<notin> set (columns t) \<longrightarrow> t' = t)"
proof (cases "''date'' \<in> set (columns t)")
  case False
  with assms show ?thesis by (auto simp: convert_traffic_def)
next
  case True
  with assms obtain ds where ds: "to_datetime parse (map t_date (rows t)) = Inr ds"
    and t': "t' = t\<lparr>rows := map2 (\<lambda>r d. r\<lparr>t_date := d\<rparr>) (rows t) ds\<rparr>"
    by (auto simp: convert_traffic_def split: sum.splits)
  from to_datetime_idem [OF ds] have len: "length ds = length (rows t)"
    and idem: "to_datetime parse ds = Inr ds" by simp_all
  note sd = set_dates_traffic [OF len]
  have c': "columns t' = columns t" and r': "rows t' = map2 (\<lambda>r d. r\<lparr>t_date := d\<rparr>) (rows t) ds"
    by (simp_all add: t')
  have 1: "map t_date (rows t') = ds"
    unfolding r' using sd by blast
  have 2: "map2 (\<lambda>r d. r\<lparr>t_date := d\<rparr>) (rows t') ds = rows t'"
    unfolding r' using sd by blast
  have 3: "map (\<lambda>r. r\<lparr>t_date := DNaT\<rparr>) (rows t') = map (\<lambda>r. r\<lparr>t_date := DNaT\<rparr>) (rows t)"
    unfolding r' using sd by blast
  have 4: "convert_traffic parse t' = Inr t'"
    using True by (simp add: convert_traffic_def c' 1 idem 2)
  show ?thesis
    using True c' 1 3 4 ds by simp
qed

lemma convert_clicks_effect:
  assumes "convert_clicks parse t = Inr t'"
  shows "columns t' = columns t
       \<and> map (\<lambda>r. r\<lparr>c_date := DNaT\<rparr>) (rows t') = map (\<lambda>r. r\<lparr>c_date := DNaT\<rparr>) (rows t)
       \<and> convert_clicks parse t' = Inr t'
       \<and> (''date'' \<in> set (columns t) \<longrightarrow>
            to_datetime parse (map c_date (rows t)) = Inr (map c_date (rows t')))
       \<and> (''date'' \<notin> set (columns t) \<longrightarrow> t' = t)"
proof (cases "''date'' \<in> set (columns t)")
  case False
  with assms show ?thesis by (auto simp: convert_clicks_def)
next
  case True
  with assms obtain ds where ds: "to_datetime parse (map c_date (rows t)) = Inr ds"
    and t': "t' = t\<lparr>rows := map2 (\<lambda>r d. r\<lparr>c_date := d\<rparr>) (rows t) ds\<rparr>"
    by (auto simp: convert_clicks_def split: sum.splits)
  from to_datetime_idem [OF ds] have len: "length ds = length (rows t)"
    and idem: "to_datetime parse ds = Inr ds" by simp_all
  note sd = set_dates_clicks [OF len]
  have c': "columns t' = columns t" and r': "rows t' = map2 (\<lambda>r d. r\<lparr>c_date := d\<rparr>) (rows t) ds"
    by (simp_all add: t')
  have 1: "map c_date (rows t') = ds"
    unfolding r' using sd by blast
  have 2: "map2 (\<lambda>r d. r\<lparr>c_date := d\<rparr>) (rows t') ds = rows t'"
    unfolding r' using sd by blast
  have 3: "map (\<lambda>r. r\<lparr>c_date := DNaT\<rparr>) (rows t') = map (\<lambda>r. r\<lparr>c_date := DNaT\<rparr>) (rows t)"
    unfolding r' using sd by blast
  have 4: "convert_clicks parse t' = Inr t'"
    using True by (simp add: convert_clicks_def c' 1 idem 2)
  show ?thesis
    using True c' 1 3 4 ds by simp
qed

lemma convert_weather_effect:
  assumes "convert_weather parse t = Inr t'"
  shows "columns t' = columns t
       \<and> map (\<lambda>r. r\<lparr>w_date := DNaT\<rparr>) (rows t') = map (\<lambda>r. r\<lparr>w_date := DNaT\<rparr>) (rows t)
       \<and> convert_weather parse t' = Inr t'
       \<and> (''date'' \<in> set (columns t) \<longrightarrow>
            to_datetime parse (map w_date (rows t)) = Inr (map w_date (rows t')))
       \<and> (''date'' \<notin> set (columns t) \<longrightarrow> t' = t)"
proof (cases "''date'' \<in> set (columns t)")
  case False
  with assms show ?thesis by (auto simp: convert_weather_def)
next
  case True
  with assms obtain ds where ds: "to_datetime parse (map w_date (rows t)) = Inr ds"
    and t': "t' = t\<lparr>rows := map2 (\<lambda>r d. r\<lparr>w_date := d\<rparr>) (rows t) ds\<rparr>"
    by (auto simp: convert_weather_def split: sum.splits)
  from to_datetime_idem [OF ds] have len: "length ds = length (rows t)"
    and idem: "to_datetime parse ds = Inr ds" by simp_all
  note sd = set_dates_weather [OF len]
  have c': "columns t' = columns t" and r': "rows t' = map2 (\<lambda>r d. r\<lparr>w_date := d\<rparr>) (rows t) ds"
    by (simp_all add: t')
  have 1: "map w_date (rows t') = ds"
    unfolding r' using sd by blast
  have 2: "map2 (\<lambda>r d. r\<lparr>w_date := d\<rparr>) (rows t') ds = rows t'"
    unfolding r' using sd by blast
  have 3: "map (\<lambda>r. r\<lparr>w_date := DNaT\<rparr>) (rows t') = map (\<lambda>r. r\<lparr>w_date := DNaT\<rparr>) (rows t)"
    unfolding r' using sd by blast
  have 4: "convert_weather parse t' = Inr t'"
    using True by (simp add: convert_weather_def c' 1 idem 2)
  show ?thesis
    using True c' 1 3 4 ds by simp
qed


lemma traffic_agg_has_date: "traffic_agg df = Inr x \<Longrightarrow> ''date'' \<in> set (columns df)"
  by (auto simp: traffic_agg_def missing_columns_def split: list.splits if_splits)

lemma clicks_agg_has_date: "clicks_agg df = Inr x \<Longrightarrow> ''date'' \<in> set (columns df)"
  by (auto simp: clicks_agg_def missing_columns_def split: list.splits if_splits)

lemma weather_agg_has_date: "weather_agg df = Inr x \<Longrightarrow> ''date'' \<in> set (columns df)"
  by (auto simp: weather_agg_def missing_columns_def split: list.splits if_splits)

lemma reconcile_has_dates:
  assumes "reconcile tdf cdf wdf sql = Inr out"
  shows "''date'' \<in> set (columns tdf) \<and> ''date'' \<in> set (columns cdf) \<and> ''date'' \<in> set (columns wdf)"
  using assms
  by (auto simp: reconcile_def split: sum.splits
      dest: traffic_agg_has_date clicks_agg_has_date weather_agg_has_date)

text \<open>
  Claim C9, as stated, fails: after the call the traffic dataset's date column holds the
  parsed timestamps, not the texts it held before. The function assigns the converted
  column to the caller's frame.
\<close>

theorem input_dates_overwritten:
  "map t_date (rows scenario_traffic) = [DStr ''2025-01-04'', DStr ''2025-01-05'']
   \<and> map t_date (rows (traffic_after (fst (process_data example_parse scenario_traffic
         scenario_clicks scenario_weather (None :: unit list option))))) = [DTs 4, DTs 5]"
  by code_simp

text \<open>
  Claim C9, amended. Whatever the outcome of the call (a normal return or an error), each
  of the three input datasets keeps its column list and every column other than date, and
  its date column either is unchanged or holds the parsed timestamps of the values it held
  before; on a normal return all three date columns hold the parsed timestamps. A second
  call on the same three objects returns the same result, logs the same and leaves them as
  the first call did; nothing else is shared between invocations.
\<close>

theorem process_data_input_effect:
  assumes "process_data parse traffic_df clicks_df weather_df sql_df = (after, result)"
  shows "columns (traffic_after after) = columns traffic_df
       \<and> columns (clicks_after after) = columns clicks_df
       \<and> columns (weather_after after) = columns weather_df
       \<and> map (\<lambda>r. r\<lparr>t_date := DNaT\<rparr>) (rows (traffic_after after))
           = map (\<lambda>r. r\<lparr>t_date := DNaT\<rparr>) (rows traffic_df)
       \<and> map (\<lambda>r. r\<lparr>c_date := DNaT\<rparr>) (rows (clicks_after after))
           = map (\<lambda>r. r\<lparr>c_date := DNaT\<rparr>) (rows clicks_df)
       \<and> map (\<lambda>r. r\<lparr>w_date := DNaT\<rparr>) (rows (weather_after after))
           = map (\<lambda>r. r\<lparr>w_date := DNaT\<rparr>) (rows weather_df)
       \<and> (map t_date (rows (traffic_after after)) = map t_date (rows traffic_df)
            \<or> to_datetime parse (map t_date (rows traffic_df))
                 = Inr (map t_date (rows (traffic_after after))))
       \<and> (map c_date (rows (clicks_after after)) = map c_date (rows clicks_df)
            \<or> to_datetime parse (map c_date (rows clicks_df))
                 = Inr (map c_date (rows (clicks_after after))))
       \<and> (map w_date (rows (weather_after after)) = map w_date (rows weather_df)
            \<or> to_datetime parse (map w_date (rows weather_df))
                 = Inr (map w_date (rows (weather_after after))))
       \<and> ((\<exists>out. result = Inr out) \<longrightarrow>
            to_datetime parse (map t_date (rows traffic_df))
              = Inr (map t_date (rows (traffic_after after)))
          \<and> to_datetime parse (map c_date (rows clicks_df))
              = Inr (map c_date (rows (clicks_after after)))
          \<and> to_datetime parse (map w_date (rows weather_df))
              = Inr (map w_date (rows (weather_after after))))
       \<and> process_data parse (traffic_after after) (clicks_after after) (weather_after after)
            sql_df = (after, result)"
proof -
  let ?L = "[(required_traffic_cols, ''traffic.csv''),
             (required_clicks_cols, ''clicks.csv''),
             (required_weather_cols, ''weather.csv'')]"
  note pd = process_data_def [of parse traffic_df clicks_df weather_df sql_df]
  show ?thesis
  proof (cases "check_columns traffic_df clicks_df weather_df ?L")
    case K: (Inl e)
    from assms have ar: "after = \<lparr>traffic_after = traffic_df, clicks_after = clicks_df,
            weather_after = weather_df, logged = []\<rparr>" "result = Inl e"
      by (simp_all add: pd K del: check_columns.simps)
    show ?thesis
      by (simp add: ar process_data_def K del: check_columns.simps)
  next
    case K: (Inr warnings)
    show ?thesis
    proof (cases "convert_traffic parse traffic_df")
      case T: (Inl e)
      from assms have ar: "after = \<lparr>traffic_after = traffic_df, clicks_after = clicks_df,
            weather_after = weather_df, logged = warnings\<rparr>" "result = Inl e"
        by (simp_all add: pd K T del: check_columns.simps)
      show ?thesis
        by (simp add: ar process_data_def K T del: check_columns.simps)
    next
      case T: (Inr tdf)
      from convert_traffic_effect [OF T]
      have t1: "columns tdf = columns traffic_df"
        and t2: "map (\<lambda>r. r\<lparr>t_date := DNaT\<rparr>) (rows tdf)
                   = map (\<lambda>r. r\<lparr>t_date := DNaT\<rparr>) (rows traffic_df)"
        and t3: "convert_traffic parse tdf = Inr tdf"
        and t4: "''date'' \<in> set (columns traffic_df) \<Longrightarrow>
                   to_datetime parse (map t_date (rows traffic_df)) = Inr (map t_date (rows tdf))"
        by blast+
      have t5: "map t_date (rows tdf) = map t_date (rows traffic_df)
                 \<or> to_datetime parse (map t_date (rows traffic_df)) = Inr (map t_date (rows tdf))"
        using convert_traffic_effect [OF T] by (cases "''date'' \<in> set (columns traffic_df)") auto
      show ?thesis
      proof (cases "convert_clicks parse clicks_df")
        case C: (Inl e)
        from assms have ar: "after = \<lparr>traffic_after = tdf, clicks_after = clicks_df,
              weather_after = weather_df, logged = warnings\<rparr>" "result = Inl e"
          by (simp_all add: pd K T C del: check_columns.simps)
        have K': "check_columns tdf clicks_df weather_df ?L = Inr warnings"
          using check_columns_cong [of tdf traffic_df clicks_df clicks_df weather_df weather_df ?L]
          by (simp only: t1 K)
        show ?thesis
          by (simp add: ar process_data_def K' t1 t2 t3 t5 C del: check_columns.simps)
      next
        case C: (Inr cdf)
        from convert_clicks_effect [OF C]
        have c1: "columns cdf = columns clicks_df"
          and c2: "map (\<lambda>r. r\<lparr>c_date := DNaT\<rparr>) (rows cdf)
                     = map (\<lambda>r. r\<lparr>c_date := DNaT\<rparr>) (rows clicks_df)"
          and c3: "convert_clicks parse cdf = Inr cdf"
          and c4: "''date'' \<in> set (columns clicks_df) \<Longrightarrow>
                     to_datetime parse (map c_date (rows clicks_df)) = Inr (map c_date (rows cdf))"
          by blast+
      have c5: "map c_date (rows cdf) = map c_date (rows clicks_df)
                 \<or> to_datetime parse (map c_date (rows clicks_df)) = Inr (map c_date (rows cdf))"
        using convert_clicks_effect [OF C] by (cases "''date'' \<in> set (columns clicks_df)") auto
        show ?thesis
        proof (cases "convert_weather parse weather_df")
          case W: (Inl e)
          from assms have ar: "after = \<lparr>traffic_after = tdf, clicks_after = cdf,
                weather_after = weather_df, logged = warnings\<rparr>" "result = Inl e"
            by (simp_all add: pd K T C W del: check_columns.simps)
          have K': "check_columns tdf cdf weather_df ?L = Inr warnings"
            using check_columns_cong [of tdf traffic_df cdf clicks_df weather_df weather_df ?L]
            by (simp only: t1 c1 K)
          show ?thesis
            by (simp add: ar process_data_def K' t1 t2 t3 t5 c1 c2 c3 c5 W del: check_columns.simps)
        next
          case W: (Inr wdf)
          from convert_weather_effect [OF W]
          have w1: "columns wdf = columns weather_df"
            and w2: "map (\<lambda>r. r\<lparr>w_date := DNaT\<rparr>) (rows wdf)
                       = map (\<lambda>r. r\<lparr>w_date := DNaT\<rparr>) (rows weather_df)"
            and w3: "convert_weather parse wdf = Inr wdf"
            and w4: "''date'' \<in> set (columns weather_df) \<Longrightarrow>
                       to_datetime parse (map w_date (rows weather_df)) = Inr (map w_date (rows wdf))"
            by blast+
      have w5: "map w_date (rows wdf) = map w_date (rows weather_df)
                 \<or> to_datetime parse (map w_date (rows weather_df)) = Inr (map w_date (rows wdf))"
        using convert_weather_effect [OF W] by (cases "''date'' \<in> set (columns weather_df)") auto
          have K': "check_columns tdf cdf wdf ?L = Inr warnings"
            using check_columns_cong [of tdf traffic_df cdf clicks_df wdf weather_df ?L]
            by (simp only: t1 c1 w1 K)
          show ?thesis
          proof (cases "reconcile tdf cdf wdf sql_df")
            case R: (Inl e)
            from assms have ar: "after = \<lparr>traffic_after = tdf, clicks_after = cdf,
                  weather_after = wdf, logged = warnings\<rparr>" "result = Inl e"
              by (simp_all add: pd K T C W R del: check_columns.simps)
            show ?thesis
              by (simp add: ar process_data_def K' t1 t2 t3 t5 c1 c2 c3 c5 w1 w2 w3 w5 R
                  del: check_columns.simps)
          next
            case R0: (Inr out)
            obtain merged metrics where out: "out = (merged, metrics)" by (cases out)
            note R = R0 [unfolded out]
            from assms have ar: "after = \<lparr>traffic_after = tdf, clicks_after = cdf,
                  weather_after = wdf,
                  logged = warnings @ [ProcessingComplete (length (rows merged))]\<rparr>"
                "result = Inr (merged, metrics)"
              by (simp_all add: pd K T C W R del: check_columns.simps)
            from reconcile_has_dates [OF R]
            have "''date'' \<in> set (columns traffic_df)" "''date'' \<in> set (columns clicks_df)"
              "''date'' \<in> set (columns weather_df)" by (simp_all add: t1 c1 w1)
            then have d: "to_datetime parse (map t_date (rows traffic_df)) = Inr (map t_date (rows tdf))"
              "to_datetime parse (map c_date (rows clicks_df)) = Inr (map c_date (rows cdf))"
              "to_datetime parse (map w_date (rows weather_df)) = Inr (map w_date (rows wdf))"
              by (simp_all add: t4 c4 w4)
            show ?thesis
              by (simp add: ar process_data_def K' t1 t2 t3 t5 c1 c2 c3 c5 w1 w2 w3 w5 R d
                  del: check_columns.simps)
          qed
        qed
      qed
    qed
  qed
qed

theorem process_data_input_effect_witness:
  "map t_date (rows scenario_traffic) = [DStr ''2025-01-04'', DStr ''2025-01-05'']
   \<and> map t_date (rows (traffic_after (fst (process_data example_parse scenario_traffic
         scenario_clicks scenario_weather (None :: unit list option))))) = [DTs 4, DTs 5]
   \<and> process_data example_parse
       (traffic_after (fst (process_data example_parse scenario_traffic
          scenario_clicks scenario_weather (None :: unit list option))))
       (clicks_after (fst (process_data example_parse scenario_traffic
          scenario_clicks scenario_weather (None :: unit list option))))
       (weather_after (fst (process_data example_parse scenario_traffic
          scenario_clicks scenario_weather (None :: unit list option))))
       (None :: unit list option)
     = process_data example_parse scenario_traffic scenario_clicks scenario_weather
         (None :: unit list option)
   \<and> snd (process_data example_parse traffic_without_location scenario_clicks
            scenario_weather (None :: unit list option)) = Inl (KeyError [''location''])
   \<and> map c_date (rows scenario_clicks) = [DStr ''2025-01-04'', DStr ''2025-01-05'']
   \<and> to_datetime example_parse (map c_date (rows scenario_clicks))
       = Inr (map c_date (rows (clicks_after (fst (process_data example_parse
           traffic_without_location scenario_clicks scenario_weather
           (None :: unit list option))))))"
proof -
  have e: "map t_date (rows scenario_traffic) = [DStr ''2025-01-04'', DStr ''2025-01-05'']
   \<and> map t_date (rows (traffic_after (fst (process_data example_parse scenario_traffic
         scenario_clicks scenario_weather (None :: unit list option))))) = [DTs 4, DTs 5]
   \<and> snd (process_data example_parse traffic_without_location scenario_clicks
            scenario_weather (None :: unit list option)) = Inl (KeyError [''location''])
   \<and> map c_date (rows scenario_clicks) = [DStr ''2025-01-04'', DStr ''2025-01-05'']
   \<and> map c_date (rows (clicks_after (fst (process_data example_parse
           traffic_without_location scenario_clicks scenario_weather
           (None :: unit list option))))) = [DTs 4, DTs 5]"
    by code_simp
  have 1: "process_data example_parse
       (traffic_after (fst (process_data example_parse scenario_traffic
          scenario_clicks scenario_weather (None :: unit list option))))
       (clicks_after (fst (process_data example_parse scenario_traffic
          scenario_clicks scenario_weather (None :: unit list option))))
       (weather_after (fst (process_data example_parse scenario_traffic
          scenario_clicks scenario_weather (None :: unit list option))))
       (None :: unit list option)
     = process_data example_parse scenario_traffic scenario_clicks scenario_weather
         (None :: unit list option)"
    using process_data_input_effect [OF surjective_pairing,
        of example_parse scenario_traffic scenario_clicks scenario_weather "None :: unit list option"]
    by simp
  have 2: "map c_date (rows (clicks_after (fst (process_data example_parse
           traffic_without_location scenario_clicks scenario_weather
           (None :: unit list option))))) = map c_date (rows scenario_clicks)
     \<or> to_datetime example_parse (map c_date (rows scenario_clicks))
       = Inr (map c_date (rows (clicks_after (fst (process_data example_parse
           traffic_without_location scenario_clicks scenario_weather
           (None :: unit list option))))))"
    using process_data_input_effect [OF surjective_pairing,
        of example_parse traffic_without_location scenario_clicks scenario_weather
           "None :: unit list option"]
    by blast
  from e have ne: "map c_date (rows (clicks_after (fst (process_data example_parse
           traffic_without_location scenario_clicks scenario_weather
           (None :: unit list option))))) \<noteq> map c_date (rows scenario_clicks)"
    by simp
  from e 1 2 ne show ?thesis by blast
qed

section \<open>The anomaly scan\<close>

lemma pdf_scan_unfold:
  assumes "has_scan_columns m"
  shows "pdf_scan m th =
     (concat (map (\<lambda>loc. fst (pdf_scan_group m (''rainfall_mm'' \<in> set (columns m)) th loc
                                 (series m loc))) (scan_locations m)),
      concat (map (\<lambda>loc. snd (pdf_scan_group m (''rainfall_mm'' \<in> set (columns m)) th loc
                                 (series m loc))) (scan_locations m)))"
  using assms
  by (simp add: pdf_scan_def has_scan_columns_def Let_def location_groups_def series_def
      scan_locations_def comp_def)

lemma pdf_scan_group_findings:
  assumes "f \<in> set (fst (pdf_scan_group m hr th loc xs))"
  shows "f_location f = loc \<and>
         (\<exists>i. Suc i < length xs \<and> f_date f = fst (xs ! Suc i) \<and> 0 < snd (snd (xs ! i)))"
  using assms
proof (induction m hr th loc xs rule: pdf_scan_group.induct)
  case (1 m hr th loc pd pl prev_impr cd cl curr_impr rest)
  let ?tl = "(cd, cl, curr_impr) # rest"
  show ?case
  proof (cases "f \<in> set (fst (pdf_scan_group m hr th loc ?tl))")
    case True
    have "f_location f = loc \<and>
         (\<exists>i. Suc i < length ?tl \<and> f_date f = fst (?tl ! Suc i) \<and> 0 < snd (snd (?tl ! i)))"
    proof (cases "prev_impr \<le> 0")
      case le: True
      from "1.IH"(1) [OF le True] show ?thesis .
    next
      case gt: False
      from "1.IH"(2) [OF gt refl True] show ?thesis .
    qed
    then obtain i where "f_location f = loc" "Suc i < length ?tl"
      "f_date f = fst (?tl ! Suc i)" "0 < snd (snd (?tl ! i))" by blast
    then have "Suc (Suc i) < length ((pd, pl, prev_impr) # ?tl)
        \<and> f_date f = fst (((pd, pl, prev_impr) # ?tl) ! Suc (Suc i))
        \<and> 0 < snd (snd (((pd, pl, prev_impr) # ?tl) ! Suc i))" by simp
    with \<open>f_location f = loc\<close> show ?thesis by blast
  next
    case False
    with "1.prems" have gt: "\<not> prev_impr \<le> 0"
      and f: "f_location f = loc \<and> f_date f = cd"
      by (auto simp: Let_def split: if_splits)
    then have "Suc 0 < length ((pd, pl, prev_impr) # ?tl)
        \<and> f_date f = fst (((pd, pl, prev_impr) # ?tl) ! Suc 0)
        \<and> 0 < snd (snd (((pd, pl, prev_impr) # ?tl) ! 0))" by simp
    with f show ?thesis by blast
  qed
qed simp_all

lemma pdf_scan_group_divisors:
  "v \<in> set (snd (pdf_scan_group m hr th loc xs)) \<Longrightarrow> 0 < v"
  by (induction m hr th loc xs rule: pdf_scan_group.induct)
     (auto simp: Let_def split: if_splits)


lemma filter_concat_by_key:
  assumes "distinct ls"
    and "\<And>l f. l \<in> set ls \<Longrightarrow> f \<in> set (F l) \<Longrightarrow> key f = l"
  shows "filter (\<lambda>f. key f = loc) (concat (map F ls)) = (if loc \<in> set ls then F loc else [])"
  using assms
proof (induction ls)
  case Nil
  then show ?case by simp
next
  case (Cons l ls)
  have own: "\<And>f. f \<in> set (F l) \<Longrightarrow> key f = l"
    using Cons.prems(2) by simp
  have IH: "filter (\<lambda>f. key f = loc) (concat (map F ls)) = (if loc \<in> set ls then F loc else [])"
    using Cons.IH Cons.prems by simp
  show ?case
  proof (cases "l = loc")
    case True
    have "filter (\<lambda>f. key f = loc) (F l) = F l"
      using own True by (simp add: filter_id_conv)
    moreover have "loc \<notin> set ls" using Cons.prems(1) True by simp
    ultimately show ?thesis using IH True by simp
  next
    case False
    have "filter (\<lambda>f. key f = loc) (F l) = []"
      using own False by (auto simp: filter_empty_conv)
    then show ?thesis using IH False by simp
  qed
qed

lemma scan_locations_distinct: "distinct (scan_locations m)"
  by (simp add: scan_locations_def)

lemma series_empty:
  assumes "loc \<notin> set (scan_locations m)"
  shows "series m loc = []"
proof -
  from assms have "\<forall>x \<in> set (daily_impressions (rows m)). (case x of (d, l, s) \<Rightarrow> l) \<noteq> loc"
    by (force simp: scan_locations_def)
  then have "filter (\<lambda>(d, l, s). l = loc) (daily_impressions (rows m)) = []"
    by (auto simp: filter_empty_conv)
  then show ?thesis by (simp add: series_def)
qed

lemma pdf_scan_location:
  assumes "has_scan_columns m"
  shows "filter (\<lambda>f. f_location f = loc) (fst (pdf_scan m th))
     = fst (pdf_scan_group m (''rainfall_mm'' \<in> set (columns m)) th loc (series m loc))"
proof -
  let ?F = "\<lambda>loc. fst (pdf_scan_group m (''rainfall_mm'' \<in> set (columns m)) th loc (series m loc))"
  have "filter (\<lambda>f. f_location f = loc) (concat (map ?F (scan_locations m)))
      = (if loc \<in> set (scan_locations m) then ?F loc else [])"
    by (rule filter_concat_by_key [OF scan_locations_distinct])
       (simp add: pdf_scan_group_findings)
  moreover have "?F loc = []" if "loc \<notin> set (scan_locations m)"
    using series_empty [OF that] by simp
  ultimately show ?thesis
    by (simp add: pdf_scan_unfold [OF assms])
qed

lemma daily_keys_distinct:
  "distinct (map (\<lambda>(d, l, s). (d, l)) (daily_impressions (rows m)))"
proof -
  let ?keys = "sort (remdups (map (\<lambda>r. (date r, location r)) (rows m)))"
  let ?g = "\<lambda>(d, l). (d, l, sum_list (map impressions
                 (filter (\<lambda>r. date r = d \<and> location r = l) (rows m))))"
  have "map (\<lambda>(d, l, s). (d, l)) (map ?g ?keys) = ?keys"
    by (simp add: comp_def case_prod_beta)
  then have "distinct (map (\<lambda>(d, l, s). (d, l)) (map ?g ?keys))" by simp
  then have "distinct (map ?g ?keys) \<and> inj_on (\<lambda>(d, l, s). (d, l)) (set (map ?g ?keys))"
    by (simp only: distinct_map)
  then have "distinct (sort_key (\<lambda>(d, l, s). (l, d)) (map ?g ?keys))
      \<and> inj_on (\<lambda>(d, l, s). (d, l)) (set (sort_key (\<lambda>(d, l, s). (l, d)) (map ?g ?keys)))"
    by simp
  then show ?thesis
    unfolding daily_impressions_def by (simp only: distinct_map)
qed

lemma series_distinct_dates: "distinct (map fst (series m loc))"
proof -
  let ?ys = "filter (\<lambda>(d, l, s). l = loc) (daily_impressions (rows m))"
  have "distinct (map (\<lambda>(d, l, s). (d, l)) ?ys)"
    by (rule distinct_map_filter) (rule daily_keys_distinct)
  then have dy: "distinct ?ys" and inj: "inj_on (\<lambda>(d, l, s). (d, l)) (set ?ys)"
    by (simp_all only: distinct_map)
  have "inj_on fst (set ?ys)"
  proof (rule inj_onI)
    fix x y assume "x \<in> set ?ys" "y \<in> set ?ys" "fst x = fst y"
    then have "(\<lambda>(d, l, s). (d, l)) x = (\<lambda>(d, l, s). (d, l)) y"
      by (auto simp: case_prod_beta)
    from inj_onD [OF inj this \<open>x \<in> set ?ys\<close> \<open>y \<in> set ?ys\<close>] show "x = y" .
  qed
  with dy have "distinct (sort_key fst ?ys) \<and> inj_on fst (set (sort_key fst ?ys))" by simp
  then show ?thesis
    unfolding series_def by (simp only: distinct_map)
qed






text \<open>
  Claim C7. For every dataset, threshold and location, a consecutive pair of the location's
  date-ordered daily series whose earlier day has summed impressions at most 0 yields no
  finding for the later day, whatever its value; and every divisor with which the relative
  change is evaluated during the scan is positive, so never zero.
\<close>

theorem anomaly_zero_guard:
  assumes "Suc i < length (series merged_df loc)"
    and "snd (snd (series merged_df loc ! i)) \<le> 0"
  shows "\<not> (\<exists>f \<in> set (fst (pdf_scan merged_df drop_threshold)).
              f_location f = loc \<and> f_date f = fst (series merged_df loc ! Suc i))
       \<and> (\<forall>v \<in> set (snd (pdf_scan merged_df drop_threshold)). 0 < v)"
proof (cases "has_scan_columns merged_df")
  case False
  then have "pdf_scan merged_df drop_threshold = ([], [])"
    by (auto simp: pdf_scan_def has_scan_columns_def)
  then show ?thesis by simp
next
  case True
  let ?xs = "series merged_df loc"
  let ?hr = "''rainfall_mm'' \<in> set (columns merged_df)"
  have no: "\<not> (\<exists>f \<in> set (fst (pdf_scan merged_df drop_threshold)).
              f_location f = loc \<and> f_date f = fst (?xs ! Suc i))"
  proof
    assume "\<exists>f \<in> set (fst (pdf_scan merged_df drop_threshold)).
              f_location f = loc \<and> f_date f = fst (?xs ! Suc i)"
    then obtain f where f: "f \<in> set (fst (pdf_scan merged_df drop_threshold))"
      and fl: "f_location f = loc" and fd: "f_date f = fst (?xs ! Suc i)" by blast
    from f fl have "f \<in> set (filter (\<lambda>f. f_location f = loc)
                               (fst (pdf_scan merged_df drop_threshold)))" by simp
    then have "f \<in> set (fst (pdf_scan_group merged_df ?hr drop_threshold loc ?xs))"
      by (simp only: pdf_scan_location [OF True])
    from pdf_scan_group_findings [OF this]
    obtain j where j: "Suc j < length ?xs" and jd: "f_date f = fst (?xs ! Suc j)"
      and jp: "0 < snd (snd (?xs ! j))" by blast
    from fd jd j assms(1) have "map fst ?xs ! Suc j = map fst ?xs ! Suc i" by simp
    moreover have "Suc j < length (map fst ?xs)" "Suc i < length (map fst ?xs)"
      using j assms(1) by simp_all
    ultimately have "Suc j = Suc i"
      using nth_eq_iff_index_eq [OF series_distinct_dates [of merged_df loc]] by blast
    with jp assms(2) show False by simp
  qed
  have pos: "\<forall>v \<in> set (snd (pdf_scan merged_df drop_threshold)). 0 < v"
    by (auto simp: pdf_scan_unfold [OF True] dest: pdf_scan_group_divisors)
  from no pos show ?thesis by blast
qed

lemma silent_series:
  "series silent_merged ''Delhi'' = [(4, ''Delhi'', 0), (5, ''Delhi'', 50), (6, ''Delhi'', 10)]"
  by code_simp

theorem anomaly_zero_guard_witness:
  "series silent_merged ''Delhi'' = [(4, ''Delhi'', 0), (5, ''Delhi'', 50), (6, ''Delhi'', 10)]
   \<and> \<not> (\<exists>f \<in> set (fst (pdf_scan silent_merged default_drop_threshold)).
              f_location f = ''Delhi'' \<and> f_date f = 5)
   \<and> 0 \<notin> set (snd (pdf_scan silent_merged default_drop_threshold))"
proof -
  have 1: "Suc 0 < length (series silent_merged ''Delhi'')"
    and 2: "snd (snd (series silent_merged ''Delhi'' ! 0)) \<le> 0"
    by (simp_all add: silent_series)
  from anomaly_zero_guard [OF 1 2, of default_drop_threshold]
  show ?thesis
    by (auto simp: silent_series)
qed

section \<open>The join\<close>











lemma weather_agg_rain:
  assumes "weather_agg df = Inr wa" "b \<in> set wa"
  shows "\<exists>k temp rain. b = (k, temp, rain)"
  by (cases b) auto
























end
